theory Spec2Isabelle
  imports
    Main
    "HOL-Library.Char_ord"
    "HOL-Library.List_Lexorder"
    "HOL-Library.Product_Lexorder"
    "HOL-Library.Sublist"
    "HOL-Library.Multiset"
begin

section \<open>Strings and integer parsing\<close>

text \<open>
  A string is a Python \<^verbatim>\<open>str\<close>, given by the code points of its characters. The
  model covers the characters below U+0100, one \<open>char\<close> for each code point; names
  and texts with other characters are outside it. Strings are compared as Python
  compares them, by code point. Among these characters \<^verbatim>\<open>str.isspace\<close> holds for
  TAB, LF, VT, FF, CR, FS, GS, RS, US, the blank, NEL (U+0085) and the no-break space
  (U+00A0); \<^verbatim>\<open>str.strip()\<close> removes them at both ends.
\<close>

definition isspace :: "char \<Rightarrow> bool" where
  "isspace c = (c \<in> set [CHR 0x09, CHR 0x0A, CHR 0x0B, CHR 0x0C, CHR 0x0D,
                         CHR 0x1C, CHR 0x1D, CHR 0x1E, CHR 0x1F, CHR '' '',
                         CHR 0x85, CHR 0xA0])"

definition strip :: "string \<Rightarrow> string" where
  "strip s = rev (dropWhile isspace (rev (dropWhile isspace s)))"

text \<open>
  \<^verbatim>\<open>int(s)\<close> first turns every whitespace character from U+007F on into a blank and
  every decimal digit into its ASCII digit, then skips at both ends what C's
  \<^verbatim>\<open>isspace\<close> accepts: of the characters of the model it drops TAB, LF, VT, FF, CR,
  the blank, NEL and the no-break space, but not FS, GS, RS and US. Below U+0100 the
  decimal digits are \<^verbatim>\<open>0\<close> to \<^verbatim>\<open>9\<close>.
\<close>

definition int_space :: "char \<Rightarrow> bool" where
  "int_space c = (c \<in> set [CHR 0x09, CHR 0x0A, CHR 0x0B, CHR 0x0C, CHR 0x0D, CHR '' '',
                           CHR 0x85, CHR 0xA0])"

definition int_strip :: "string \<Rightarrow> string" where
  "int_strip s = rev (dropWhile int_space (rev (dropWhile int_space s)))"

definition isdigit :: "char \<Rightarrow> bool" where
  "isdigit c = (c \<in> set ''0123456789'')"

definition digit :: "char \<Rightarrow> nat" where
  "digit c = of_char c - 48"

text \<open>
  Python's \<^verbatim>\<open>int(s)\<close> for a string, base 10: surrounding whitespace is dropped, one
  sign may lead, and the digits may be separated by single underscores; more digits
  than \<^verbatim>\<open>sys.get_int_max_str_digits()\<close>, 4300 unless configured, are refused.
  \<open>None\<close> stands for the \<^verbatim>\<open>ValueError\<close>. \<open>digits_from acc cs\<close> reads the rest of a
  digit string whose last character read was a digit.
\<close>

fun digits_from :: "nat \<Rightarrow> string \<Rightarrow> nat option" where
  "digits_from acc [] = Some acc"
| "digits_from acc [c] = (if isdigit c then Some (10 * acc + digit c) else None)"
| "digits_from acc (c # d # cs) =
     (if isdigit c then digits_from (10 * acc + digit c) (d # cs)
      else if c = CHR ''_'' \<and> isdigit d then digits_from (10 * acc + digit d) cs
      else None)"

definition int_max_str_digits :: int where
  "int_max_str_digits = 4300"

definition digits_value :: "string \<Rightarrow> nat option" where
  "digits_value s =
     (case s of
        [] \<Rightarrow> None
      | c # cs \<Rightarrow>
          if isdigit c \<and> int (length (filter isdigit s)) \<le> int_max_str_digits
          then digits_from (digit c) cs
          else None)"

definition int_of_str :: "string \<Rightarrow> int option" where
  "int_of_str s =
     (case int_strip s of
        [] \<Rightarrow> None
      | c # cs \<Rightarrow>
          if c = CHR ''-'' then map_option (\<lambda>n. - int n) (digits_value cs)
          else if c = CHR ''+'' then map_option int (digits_value cs)
          else map_option int (digits_value (c # cs)))"

text \<open>
  \<^verbatim>\<open>parse_int\<close>: \<^verbatim>\<open>try: return int(s)  except Exception: return None\<close>.
\<close>

definition parse_int :: "string \<Rightarrow> int option" where
  "parse_int s = int_of_str s"

text \<open>
  The words of the specification, for comparison with \<open>parse_int\<close>: a string that as a
  whole is a base-10 integer is an optional sign followed by one or more decimal digits.
\<close>

definition unsigned :: "string \<Rightarrow> string" where
  "unsigned s =
     (case s of
        [] \<Rightarrow> []
      | c # cs \<Rightarrow> if c = CHR ''-'' \<or> c = CHR ''+'' then cs else s)"

definition base10_integer :: "string \<Rightarrow> bool" where
  "base10_integer s = (unsigned s \<noteq> [] \<and> list_all isdigit (unsigned s))"

text \<open>
  What \<open>parse_int\<close> accepts, stated without reference to the scanner: the digits after
  the optional sign, no more than the limit, fall into non-empty groups separated by
  single underscores.
\<close>

fun split_on :: "char \<Rightarrow> string \<Rightarrow> string list" where
  "split_on sep [] = [[]]"
| "split_on sep (c # cs) =
     (if c = sep then [] # split_on sep cs
      else (case split_on sep cs of
              [] \<Rightarrow> [[c]]
            | g # gs \<Rightarrow> (c # g) # gs))"

definition digit_groups :: "string \<Rightarrow> bool" where
  "digit_groups s = list_all (\<lambda>g. g \<noteq> [] \<and> list_all isdigit g) (split_on CHR ''_'' s)"

definition int_literal :: "string \<Rightarrow> bool" where
  "int_literal s =
     (digit_groups (unsigned s)
      \<and> int (length (filter isdigit (unsigned s))) \<le> int_max_str_digits)"

definition decimal :: "string \<Rightarrow> nat" where
  "decimal s = foldl (\<lambda>a c. 10 * a + digit c) 0 (filter isdigit s)"

definition literal_value :: "string \<Rightarrow> int" where
  "literal_value s =
     (case s of
        [] \<Rightarrow> 0
      | c # cs \<Rightarrow> if c = CHR ''-'' then - int (decimal cs) else int (decimal s))"

section \<open>Metadata: JSON values and prompt extraction\<close>

text \<open>
  The values \<^verbatim>\<open>json.load\<close> yields. \<^verbatim>\<open>extract_prompt\<close> tells strings, lists and
  objects apart and looks at nothing else, so numbers carry an integer only. An object
  is the list of its items; \<^verbatim>\<open>obj.get(k)\<close> is \<open>map_of\<close>.
\<close>

datatype json =
    JNull
  | JBool bool
  | JNum int
  | JStr string
  | JList "json list"
  | JObj "(string \<times> json) list"

text \<open>\<^verbatim>\<open>isinstance(v, str) and v.strip()\<close>, giving \<^verbatim>\<open>v.strip()\<close>.\<close>

definition text_of :: "json option \<Rightarrow> string option" where
  "text_of v =
     (case v of
        Some (JStr s) \<Rightarrow> if strip s \<noteq> [] then Some (strip s) else None
      | _ \<Rightarrow> None)"

definition first_or_empty :: "string list \<Rightarrow> string" where
  "first_or_empty xs = (case xs of [] \<Rightarrow> [] | s # _ \<Rightarrow> s)"

lemma size_map_of:
  "map_of kvs k = Some v \<Longrightarrow> size v < Suc (size_list (size_prod (\<lambda>_. 0) size) kvs)"
  by (induction kvs) (auto split: if_splits)

function extract_prompt :: "json \<Rightarrow> string" where
  "extract_prompt (JList els) =
     first_or_empty
       (List.map_filter
          (\<lambda>el. case el of JObj kvs \<Rightarrow> text_of (map_of kvs ''value'') | _ \<Rightarrow> None) els)"
| "extract_prompt (JObj kvs) =
     (case List.map_filter (\<lambda>k. text_of (map_of kvs k))
             [''prompt'', ''instruction'', ''input'', ''question'', ''caption'', ''text''] of
        s # _ \<Rightarrow> s
      | [] \<Rightarrow>
          first_or_empty
            (filter (\<lambda>p. p \<noteq> [])
               (map (\<lambda>k. case map_of kvs k of
                             Some (JList l) \<Rightarrow> extract_prompt (JList l)
                           | Some (JObj ob) \<Rightarrow> extract_prompt (JObj ob)
                           | _ \<Rightarrow> [])
                  [''data'', ''meta'', ''inputs'', ''message'', ''messages'', ''payload''])))"
| "extract_prompt JNull = []"
| "extract_prompt (JBool b) = []"
| "extract_prompt (JNum n) = []"
| "extract_prompt (JStr s) = []"
  by pat_completeness auto
termination
  by (relation "measure size") (auto dest: size_map_of)

section \<open>The file system\<close>

text \<open>
  A path is the list of its components. A state of the file system lists its entries,
  each path with its node, in the order in which a directory listing yields them
  (\<^verbatim>\<open>iterdir\<close> promises no order). A regular file carries its modification time, its
  size and what \<^verbatim>\<open>json.load\<close> yields on its text (\<open>None\<close> where it raises under both
  encodings); a directory carries the two numbers of its \<^verbatim>\<open>stat\<close>. Times are only
  compared, so \<^verbatim>\<open>st_mtime\<close> is an integer count of clock ticks. Links and permissions
  are not modelled, and creating an entry does not advance the time of its directory.
\<close>

type_synonym path = "string list"

datatype node =
    File (st_mtime: int) (st_size: nat) (loaded: "json option")
  | Dir (st_mtime: int) (st_size: nat)

type_synonym fs = "(path \<times> node) list"

datatype error =
    FileNotFoundError
  | NotADirectoryError
  | IsADirectoryError
  | FileExistsError
  | SameFileError
  | ValueError

definition name :: "path \<Rightarrow> string" where
  "name p = (if p = [] then [] else last p)"

definition parent :: "path \<Rightarrow> path" where
  "parent p = butlast p"

definition joinpath :: "path \<Rightarrow> string \<Rightarrow> path" where
  "joinpath p n = (if n = [] then p else p @ [n])"

definition exists :: "fs \<Rightarrow> path \<Rightarrow> bool" where
  "exists fs p = (map_of fs p \<noteq> None)"

definition is_dir :: "fs \<Rightarrow> path \<Rightarrow> bool" where
  "is_dir fs p = (case map_of fs p of Some (Dir _ _) \<Rightarrow> True | _ \<Rightarrow> False)"


text \<open>
  \<^verbatim>\<open>p.stat()\<close> for a path that a listing of the same state has returned, where it
  cannot raise.
\<close>

definition stat :: "fs \<Rightarrow> path \<Rightarrow> node" where
  "stat fs p = the (map_of fs p)"

definition children :: "fs \<Rightarrow> path \<Rightarrow> path list" where
  "children fs p = filter (\<lambda>q. q \<noteq> [] \<and> butlast q = p) (map fst fs)"

definition iterdir :: "fs \<Rightarrow> path \<Rightarrow> error + path list" where
  "iterdir fs p =
     (case map_of fs p of
        None \<Rightarrow> Inl FileNotFoundError
      | Some (File _ _ _) \<Rightarrow> Inl NotADirectoryError
      | Some (Dir _ _) \<Rightarrow> Inr (children fs p))"

text \<open>
  The states that are file systems: no path is listed twice, no component of a path is
  the empty string, and every entry but the base directory \<open>[]\<close> lies in a directory.
\<close>

definition wf_fs :: "fs \<Rightarrow> bool" where
  "wf_fs fs =
     (distinct (map fst fs)
      \<and> list_all (\<lambda>p. [] \<notin> set p) (map fst fs)
      \<and> list_all (\<lambda>p. p = [] \<or> is_dir fs (butlast p)) (map fst fs))"

definition endswith :: "string \<Rightarrow> string \<Rightarrow> bool" where
  "endswith s suf = (length suf \<le> length s \<and> drop (length s - length suf) s = suf)"

text \<open>
  \<^verbatim>\<open>folder.glob("*.jpg")\<close>: the entries of the folder, files or directories, whose
  name ends in \<^verbatim>\<open>.jpg\<close> (POSIX: the case matters); nothing when the folder is no
  directory.
\<close>

definition glob_jpg :: "fs \<Rightarrow> path \<Rightarrow> path list" where
  "glob_jpg fs folder =
     (if is_dir fs folder then filter (\<lambda>q. endswith (name q) ''.jpg'') (children fs folder)
      else [])"

text \<open>
  \<^verbatim>\<open>sorted\<close> on paths compares their component lists, strings by code point: the
  lexicographic order on \<open>path\<close>.
\<close>

definition first_jpg :: "fs \<Rightarrow> path \<Rightarrow> path option" where
  "first_jpg fs folder =
     (case sort (glob_jpg fs folder) of
        [] \<Rightarrow> None
      | f # _ \<Rightarrow> Some f)"

text \<open>
  \<^verbatim>\<open>list.sort(key=..., reverse=...)\<close>: stable in both directions; with
  \<^verbatim>\<open>reverse=True\<close> the list is reversed, sorted and reversed again, so that equal
  keys keep their order.
\<close>

definition py_sort :: "('a \<Rightarrow> 'k::linorder) \<Rightarrow> bool \<Rightarrow> 'a list \<Rightarrow> 'a list" where
  "py_sort key reverse xs = (if reverse then rev (sort_key key (rev xs)) else sort_key key xs)"

text \<open>
  The sort key \<^verbatim>\<open>int(p.name)\<close> is applied to names \<^verbatim>\<open>parse_int\<close> has accepted.
\<close>

definition int_name :: "path \<Rightarrow> int" where
  "int_name p = the (parse_int (name p))"

definition iter_dirs_numeric_sorted :: "fs \<Rightarrow> path \<Rightarrow> bool \<Rightarrow> error + path list" where
  "iter_dirs_numeric_sorted fs root reverse =
     (case iterdir fs root of
        Inl e \<Rightarrow> Inl e
      | Inr ps \<Rightarrow>
          let dirs = filter (is_dir fs) ps;
              with_num = map (\<lambda>p. (p, parse_int (name p))) dirs;
              numeric = map fst (filter (\<lambda>(p, n). n \<noteq> None) with_num);
              nonnum = map fst (filter (\<lambda>(p, n). n = None) with_num)
          in Inr (py_sort int_name reverse numeric
                  @ py_sort (\<lambda>p. st_mtime (stat fs p)) reverse nonnum))"

definition child_dirs_numeric_sorted :: "fs \<Rightarrow> path \<Rightarrow> bool \<Rightarrow> error + path list" where
  "child_dirs_numeric_sorted fs root reverse = iter_dirs_numeric_sorted fs root reverse"

text \<open>
  \<^verbatim>\<open>count_files\<close>: the regular files among \<^verbatim>\<open>root.rglob("*")\<close>, which in a file
  system are the file entries strictly below the root.
\<close>

definition count_files :: "fs \<Rightarrow> path \<Rightarrow> nat" where
  "count_files fs root =
     length (filter (\<lambda>(p, n). strict_prefix root p \<and> (case n of File _ _ _ \<Rightarrow> True | _ \<Rightarrow> False)) fs)"

definition infer_model :: "path \<Rightarrow> string \<Rightarrow> string" where
  "infer_model p fallback =
     (case dropWhile (\<lambda>x. x \<noteq> ''UnifyModelEval'') p of
        _ # m # _ \<Rightarrow> m
      | _ \<Rightarrow> if fallback \<noteq> [] then fallback else ''unknown-model'')"

text \<open>
  \<^verbatim>\<open>PurePath.suffix\<close>, \<^verbatim>\<open>stem\<close> and \<^verbatim>\<open>with_suffix\<close>: the suffix starts at the last
  dot of the name, unless that dot is the first or the last character.
\<close>

definition suffix_of :: "string \<Rightarrow> string" where
  "suffix_of nm =
     (let k = length (takeWhile (\<lambda>c. c \<noteq> CHR ''.'') (rev nm))
      in if CHR ''.'' \<in> set nm \<and> 0 < k \<and> k + 1 < length nm then drop (length nm - 1 - k) nm
         else [])"

definition stem :: "path \<Rightarrow> string" where
  "stem p = take (length (name p) - length (suffix_of (name p))) (name p)"

definition with_suffix :: "path \<Rightarrow> string \<Rightarrow> path" where
  "with_suffix p suf = joinpath (parent p) (stem p @ suf)"

text \<open>
  \<^verbatim>\<open>read_json\<close>: what \<^verbatim>\<open>json.load\<close> yields, or the empty object when opening or
  parsing raises.
\<close>

definition read_json :: "fs \<Rightarrow> path \<Rightarrow> json" where
  "read_json fs p =
     (case map_of fs p of
        Some (File _ _ (Some j)) \<Rightarrow> j
      | _ \<Rightarrow> JObj [])"

section \<open>Candidates and the two crawlers\<close>

record candidate =
  src :: path
  dst_dir :: path
  benchmark :: string
  iter_dir :: string
  sub_dir :: string
  model :: string
  prompt :: string
  mtime :: int
  iter_num :: int
  sub_num :: int
  item_id :: string

definition make_candidate ::
  "fs \<Rightarrow> path \<Rightarrow> path \<Rightarrow> string \<Rightarrow> path \<Rightarrow> path \<Rightarrow> string \<Rightarrow> string \<Rightarrow> candidate" where
  "make_candidate fs jpg dst bench iter_d sub_d mdl prm =
     \<lparr> src = jpg,
       dst_dir = dst,
       benchmark = bench,
       iter_dir = name iter_d,
       sub_dir = name sub_d,
       model = mdl,
       prompt = prm,
       mtime = st_mtime (stat fs jpg),
       iter_num = (case parse_int (name iter_d) of Some n \<Rightarrow> n | None \<Rightarrow> - 1),
       sub_num = (case parse_int (name sub_d) of Some n \<Rightarrow> n | None \<Rightarrow> - 1),
       item_id = bench @ ''-'' @ name iter_d @ ''-'' @ name sub_d @ ''-'' @ stem jpg \<rparr>"

text \<open>
  The loops of the crawlers append to a list and stop at the first exception:
  \<open>gather f xs\<close> runs the body \<open>f\<close> over \<open>xs\<close> in order.
\<close>

fun gather :: "('a \<Rightarrow> error + 'b list) \<Rightarrow> 'a list \<Rightarrow> error + 'b list" where
  "gather f [] = Inr []"
| "gather f (x # xs) =
     (case f x of
        Inl e \<Rightarrow> Inl e
      | Inr ys \<Rightarrow> (case gather f xs of Inl e \<Rightarrow> Inl e | Inr zs \<Rightarrow> Inr (ys @ zs)))"

text \<open>\<^verbatim>\<open>iters[:latest_iters]\<close> when \<^verbatim>\<open>latest_iters\<close> is given and positive.\<close>

definition latest :: "int option \<Rightarrow> path list \<Rightarrow> path list" where
  "latest latest_iters iters =
     (case latest_iters of
        None \<Rightarrow> iters
      | Some n \<Rightarrow> if 0 < n then take (nat n) iters else iters)"

text \<open>The prompt of a discovered image: lines 138 to 140, and 158 to 160.\<close>

definition prompt_of :: "fs \<Rightarrow> path \<Rightarrow> string" where
  "prompt_of fs jpg =
     (let js = with_suffix jpg ''.json'';
          meta = (if exists fs js then read_json fs js else JObj [])
      in extract_prompt meta)"

text \<open>The body of the inner loop of \<^verbatim>\<open>crawl_geneval_candidates\<close>.\<close>

definition geneval_leaf :: "fs \<Rightarrow> path \<Rightarrow> string \<Rightarrow> path \<Rightarrow> path \<Rightarrow> candidate option" where
  "geneval_leaf fs images_out mdl iter_d count_dir =
     (let samples = joinpath count_dir ''samples'' in
      if \<not> exists fs samples then None
      else (case first_jpg fs samples of
              None \<Rightarrow> None
            | Some jpg \<Rightarrow>
                let prm = prompt_of fs jpg;
                    dst = joinpath (joinpath (joinpath images_out ''geneval'') (name iter_d))
                            (name count_dir)
                in Some (make_candidate fs jpg dst ''geneval'' iter_d count_dir mdl prm)))"

definition geneval_iter :: "fs \<Rightarrow> path \<Rightarrow> string \<Rightarrow> path \<Rightarrow> error + candidate list" where
  "geneval_iter fs images_out mdl iter_d =
     (let gen_dir = joinpath iter_d ''generation'' in
      if \<not> exists fs gen_dir then Inr []
      else (case child_dirs_numeric_sorted fs gen_dir True of
              Inl e \<Rightarrow> Inl e
            | Inr ds \<Rightarrow> Inr (List.map_filter (geneval_leaf fs images_out mdl iter_d) ds)))"

definition crawl_geneval_candidates ::
  "fs \<Rightarrow> path \<Rightarrow> path \<Rightarrow> string \<Rightarrow> int option \<Rightarrow> error + candidate list" where
  "crawl_geneval_candidates fs root images_out mdl latest_iters =
     (case iter_dirs_numeric_sorted fs root True of
        Inl e \<Rightarrow> Inl e
      | Inr iters \<Rightarrow> gather (geneval_iter fs images_out mdl) (latest latest_iters iters))"

text \<open>The body of the inner loop of \<^verbatim>\<open>crawl_dpg_candidates\<close>.\<close>

definition dpg_leaf :: "fs \<Rightarrow> path \<Rightarrow> string \<Rightarrow> path \<Rightarrow> path \<Rightarrow> candidate option" where
  "dpg_leaf fs images_out mdl iter_d name_dir =
     (case first_jpg fs name_dir of
        None \<Rightarrow> None
      | Some jpg \<Rightarrow>
          let prm = prompt_of fs jpg;
              dst = joinpath (joinpath (joinpath images_out ''dpg'') (name iter_d))
                      (name name_dir)
          in Some (make_candidate fs jpg dst ''dpg'' iter_d name_dir mdl prm))"

definition dpg_iter :: "fs \<Rightarrow> path \<Rightarrow> string \<Rightarrow> path \<Rightarrow> error + candidate list" where
  "dpg_iter fs images_out mdl iter_d =
     (let gen_dir = joinpath iter_d ''generation'' in
      if \<not> exists fs gen_dir then Inr []
      else (case child_dirs_numeric_sorted fs gen_dir True of
              Inl e \<Rightarrow> Inl e
            | Inr ds \<Rightarrow> Inr (List.map_filter (dpg_leaf fs images_out mdl iter_d) ds)))"

definition crawl_dpg_candidates ::
  "fs \<Rightarrow> path \<Rightarrow> path \<Rightarrow> string \<Rightarrow> int option \<Rightarrow> error + candidate list" where
  "crawl_dpg_candidates fs root images_out mdl latest_iters =
     (case iter_dirs_numeric_sorted fs root True of
        Inl e \<Rightarrow> Inl e
      | Inr iters \<Rightarrow> gather (dpg_iter fs images_out mdl) (latest latest_iters iters))"

section \<open>Selection\<close>

text \<open>
  Lines 210 to 213: \<^verbatim>\<open>candidates.sort(key=..., reverse=True)\<close> on the tuple
  \<^verbatim>\<open>(iter_num, sub_num, mtime, benchmark)\<close>; tuples and strings compare
  lexicographically.
\<close>

definition sort_key_of :: "candidate \<Rightarrow> int \<times> int \<times> int \<times> string" where
  "sort_key_of x = (iter_num x, sub_num x, mtime x, benchmark x)"

definition sort_candidates :: "candidate list \<Rightarrow> candidate list" where
  "sort_candidates candidates = py_sort sort_key_of True candidates"

text \<open>Lines 217 to 220, from the count of line 216.\<close>

definition effective_limit :: "int \<Rightarrow> int \<Rightarrow> nat \<Rightarrow> int" where
  "effective_limit max_items file_budget existing_files =
     (let headroom = file_budget - int existing_files;
          headroom = (if headroom < 0 then 0 else headroom)
      in min max_items headroom)"

text \<open>
  \<^verbatim>\<open>xs[:n]\<close>: a negative bound counts from the end of the list.
\<close>

definition slice_to :: "'a list \<Rightarrow> int \<Rightarrow> 'a list" where
  "slice_to xs n = (if 0 \<le> n then take (nat n) xs else take (nat (int (length xs) + n)) xs)"

section \<open>Copying and the manifest\<close>

text \<open>
  \<^verbatim>\<open>mkdir(parents=True, exist_ok=True)\<close>: \<^verbatim>\<open>os.mkdir\<close> is tried first; where the
  parent is missing it is made in the same way, and an existing path is accepted only
  when it is a directory.
\<close>

function mkdir_parents :: "int \<Rightarrow> fs \<Rightarrow> path \<Rightarrow> error + fs" where
  "mkdir_parents now fs p =
     (case map_of fs p of
        Some (Dir _ _) \<Rightarrow> Inr fs
      | Some (File _ _ _) \<Rightarrow> Inl FileExistsError
      | None \<Rightarrow>
          if p = [] then Inl FileNotFoundError
          else (case map_of fs (butlast p) of
                  Some (Dir _ _) \<Rightarrow> Inr (fs @ [(p, Dir now 0)])
                | Some (File _ _ _) \<Rightarrow> Inl NotADirectoryError
                | None \<Rightarrow>
                    (case mkdir_parents now fs (butlast p) of
                       Inl e \<Rightarrow> Inl e
                     | Inr fs1 \<Rightarrow> Inr (fs1 @ [(p, Dir now 0)]))))"
  by pat_completeness auto
termination
  by (relation "measure (\<lambda>(now, fs, p). length p)") auto

text \<open>
  Writing a regular file at a path: the entry is replaced where it stands, or added at
  the end of the listing.
\<close>

fun put_file :: "fs \<Rightarrow> path \<Rightarrow> node \<Rightarrow> fs" where
  "put_file [] p f = [(p, f)]"
| "put_file ((q, n) # fs) p f = (if q = p then (p, f) # fs else (q, n) # put_file fs p f)"

text \<open>
  \<^verbatim>\<open>shutil.copy2(src, dst)\<close>: into the directory when \<^verbatim>\<open>dst\<close> is one; the copy
  carries the content and the modification time of the source.
\<close>

definition copy2 :: "fs \<Rightarrow> path \<Rightarrow> path \<Rightarrow> error + fs" where
  "copy2 fs s d =
     (let target = (if is_dir fs d then joinpath d (name s) else d) in
      case map_of fs s of
        None \<Rightarrow> Inl FileNotFoundError
      | Some (Dir _ _) \<Rightarrow> Inl IsADirectoryError
      | Some (File m sz j) \<Rightarrow>
          if target = s then Inl SameFileError
          else if is_dir fs target then Inl IsADirectoryError
          else if \<not> is_dir fs (parent target) then Inl FileNotFoundError
          else Inr (put_file fs target (File m sz j)))"

text \<open>
  \<^verbatim>\<open>str(dst.relative_to(site_root)).replace("\\", "/")\<close>.
\<close>

definition relative_to :: "path \<Rightarrow> path \<Rightarrow> error + path" where
  "relative_to p root = (if prefix root p then Inr (drop (length root) p) else Inl ValueError)"

fun str_of_path :: "path \<Rightarrow> string" where
  "str_of_path [] = ''.''"
| "str_of_path [n] = n"
| "str_of_path (n # ns) = n @ ''/'' @ str_of_path ns"

definition web_path :: "path \<Rightarrow> string" where
  "web_path p = map (\<lambda>c. if c = CHR 0x5C then CHR ''/'' else c) (str_of_path p)"

text \<open>
  What a run does besides changing the file system, in order: the lines it prints, the
  calls of \<^verbatim>\<open>shutil.copy2\<close> and the manifests it writes.
\<close>

datatype message =
    ErrorNoIndex path
  | OkNoCandidates
  | Info nat nat int int int nat
  | Preview nat string string string path
  | DryRunSkipped
  | OkWrote path nat

datatype event =
    Print message
  | Copy2 path path
  | WriteText path json

definition needs_copy :: "fs \<Rightarrow> path \<Rightarrow> path \<Rightarrow> error + bool" where
  "needs_copy fs s dst =
     (case map_of fs dst of
        None \<Rightarrow> Inr True
      | Some d \<Rightarrow>
          (case map_of fs s of
             None \<Rightarrow> Inl FileNotFoundError
           | Some n \<Rightarrow> Inr (st_mtime d < st_mtime n \<or> st_size n \<noteq> st_size d)))"

definition copy_to_site ::
  "int \<Rightarrow> fs \<Rightarrow> path \<Rightarrow> path \<Rightarrow> path \<Rightarrow> error + (fs \<times> string \<times> event list)" where
  "copy_to_site now fs s dst_d site_root =
     (case mkdir_parents now fs dst_d of
        Inl e \<Rightarrow> Inl e
      | Inr fs1 \<Rightarrow>
          let dst = joinpath dst_d (name s) in
          (case needs_copy fs1 s dst of
             Inl e \<Rightarrow> Inl e
           | Inr c \<Rightarrow>
               (case (if c then copy2 fs1 s dst else Inr fs1) of
                  Inl e \<Rightarrow> Inl e
                | Inr fs2 \<Rightarrow>
                    (case relative_to dst site_root of
                       Inl e \<Rightarrow> Inl e
                     | Inr rel \<Rightarrow> Inr (fs2, web_path rel, if c then [Copy2 s dst] else [])))))"

text \<open>The dictionary of lines 240 to 253.\<close>

definition manifest_item :: "candidate \<Rightarrow> string \<Rightarrow> json" where
  "manifest_item c web_rel =
     (let second_tag_key = (if benchmark c = ''geneval'' then ''count'' else ''name'') in
      JObj [(''id'', JStr (item_id c)),
            (''benchmark'', JStr (benchmark c)),
            (''dataset'', JStr (benchmark c)),
            (''split'', JStr []),
            (''prompt'', JStr (prompt c)),
            (''image'', JStr web_rel),
            (''reference'', JStr []),
            (''answer'', JStr []),
            (''prediction'', JStr []),
            (''model'', JStr (model c)),
            (''tags'', JList [JStr (''iter:'' @ iter_dir c),
                              JStr (second_tag_key @ '':'' @ sub_dir c)]),
            (''extra'', JObj [])])"

text \<open>The loop of lines 236 to 253.\<close>

fun copy_all ::
  "int \<Rightarrow> path \<Rightarrow> candidate list \<Rightarrow> fs \<Rightarrow> error + (fs \<times> json list \<times> event list)" where
  "copy_all now site [] fs = Inr (fs, [], [])"
| "copy_all now site (c # cs) fs =
     (case copy_to_site now fs (src c) (dst_dir c) site of
        Inl e \<Rightarrow> Inl e
      | Inr (fs1, web_rel, evs) \<Rightarrow>
          (case copy_all now site cs fs1 of
             Inl e \<Rightarrow> Inl e
           | Inr (fs2, items, evs2) \<Rightarrow> Inr (fs2, manifest_item c web_rel # items, evs @ evs2)))"

text \<open>
  The manifest: \<open>benchmarks\<close> are the benchmark fields of the items,
  \<^verbatim>\<open>sorted(list(set(...)))\<close>.
\<close>

definition benchmark_of :: "json \<Rightarrow> string" where
  "benchmark_of item =
     (case item of
        JObj kvs \<Rightarrow> (case map_of kvs ''benchmark'' of Some (JStr b) \<Rightarrow> b | _ \<Rightarrow> [])
      | _ \<Rightarrow> [])"

definition manifest_of :: "string \<Rightarrow> json list \<Rightarrow> json" where
  "manifest_of created items =
     JObj [(''meta'', JObj [(''created_at'', JStr created),
                            (''benchmarks'', JList (map JStr (sort (remdups (map benchmark_of items)))))]),
           (''items'', JList items)]"

text \<open>
  The surroundings of a run: the clock, \<^verbatim>\<open>datetime.now()\<close> as the manifest prints it,
  and the length of the text \<^verbatim>\<open>json.dumps\<close> gives for a value.
\<close>

record env =
  clock :: int
  created_at :: string
  dumps_size :: "json \<Rightarrow> nat"

text \<open>
  \<^verbatim>\<open>path.write_text(json.dumps(manifest, ...), encoding="utf-8")\<close>. Every string
  of the model has an encoding in UTF-8, so that the encoder does not raise.
\<close>

definition write_text :: "env \<Rightarrow> fs \<Rightarrow> path \<Rightarrow> json \<Rightarrow> error + fs" where
  "write_text ev fs p j =
     (if is_dir fs p then Inl IsADirectoryError
      else if \<not> is_dir fs (parent p) then Inl FileNotFoundError
      else Inr (put_file fs p (File (clock ev) (dumps_size ev j) (Some j))))"

section \<open>The run\<close>

record args =
  site_dir :: path
  geneval_root :: "path option"
  dpg_root :: "path option"
  model_arg :: string
  max_items :: int
  latest_iters :: "int option"
  file_budget :: int
  dry_run :: bool

datatype outcome =
    Exit int fs "event list"
  | Raise error

text \<open>Lines 188 to 196: the candidates of both benchmarks, geneval first.\<close>

definition collect_candidates :: "fs \<Rightarrow> args \<Rightarrow> path \<Rightarrow> error + candidate list" where
  "collect_candidates fs a images_out =
     (case (case geneval_root a of
              None \<Rightarrow> Inr []
            | Some g \<Rightarrow>
                crawl_geneval_candidates fs g images_out (infer_model g (model_arg a))
                  (latest_iters a)) of
        Inl e \<Rightarrow> Inl e
      | Inr gs \<Rightarrow>
          (case (case dpg_root a of
                   None \<Rightarrow> Inr []
                 | Some d \<Rightarrow>
                     crawl_dpg_candidates fs d images_out (infer_model d (model_arg a))
                       (latest_iters a)) of
             Inl e \<Rightarrow> Inl e
           | Inr ds \<Rightarrow> Inr (gs @ ds)))"

text \<open>Lines 210 to 222: the sort, the limit and the slice.\<close>

definition select :: "args \<Rightarrow> nat \<Rightarrow> candidate list \<Rightarrow> candidate list" where
  "select a existing_files candidates =
     slice_to (sort_candidates candidates)
       (effective_limit (max_items a) (file_budget a) existing_files)"

definition preview :: "candidate list \<Rightarrow> event list" where
  "preview selected =
     map (\<lambda>(i, c). Print (Preview (i + 1) (benchmark c) (iter_dir c) (sub_dir c) (src c)))
       (enumerate 0 (take 10 selected))"

definition main :: "env \<Rightarrow> args \<Rightarrow> fs \<Rightarrow> outcome" where
  "main ev a fs =
     (let site = site_dir a in
      if \<not> exists fs (joinpath site ''index.html'') then Exit 2 fs [Print (ErrorNoIndex site)]
      else
        let images_out = joinpath site ''images'';
            manifest_path = joinpath site ''manifest.json''
        in
        case mkdir_parents (clock ev) fs images_out of
          Inl e \<Rightarrow> Raise e
        | Inr fs1 \<Rightarrow>
            (case collect_candidates fs1 a images_out of
               Inl e \<Rightarrow> Raise e
             | Inr candidates \<Rightarrow>
                 let total_candidates = length candidates in
                 if total_candidates = 0 then
                   (let manifest = manifest_of (created_at ev) [] in
                    case write_text ev fs1 manifest_path manifest of
                      Inl e \<Rightarrow> Raise e
                    | Inr fs2 \<Rightarrow>
                        Exit 0 fs2 [Print OkNoCandidates, WriteText manifest_path manifest])
                 else
                   let existing_files = count_files fs1 site;
                       limit = effective_limit (max_items a) (file_budget a) existing_files;
                       selected = select a existing_files candidates;
                       info = Print (Info total_candidates existing_files (file_budget a)
                                       (max_items a) limit (length selected))
                   in
                   if dry_run a then Exit 0 fs1 (info # preview selected @ [Print DryRunSkipped])
                   else
                     (case copy_all (clock ev) site selected fs1 of
                        Inl e \<Rightarrow> Raise e
                      | Inr (fs2, items, evs) \<Rightarrow>
                          let manifest = manifest_of (created_at ev) items in
                          (case write_text ev fs2 manifest_path manifest of
                             Inl e \<Rightarrow> Raise e
                           | Inr fs3 \<Rightarrow>
                               Exit 0 fs3
                                 (info # evs @ [WriteText manifest_path manifest,
                                                Print (OkWrote manifest_path (length items))])))))"

section \<open>Notions of the specification\<close>

text \<open>
  The order the specification describes for the merged list, in its own words:
  descending on the iteration rank, then on the sub-unit rank, then on the modification
  time, then on the benchmark name. \<open>key_ge a b\<close>: \<open>a\<close> may stand before \<open>b\<close>.
\<close>

definition key_ge :: "candidate \<Rightarrow> candidate \<Rightarrow> bool" where
  "key_ge a b =
     (iter_num b < iter_num a \<or>
      (iter_num a = iter_num b \<and>
       (sub_num b < sub_num a \<or>
        (sub_num a = sub_num b \<and>
         (mtime b < mtime a \<or> (mtime a = mtime b \<and> benchmark b \<le> benchmark a))))))"

text \<open>A numeric-named directory, and a list read in the requested direction.\<close>

definition numeric_name :: "path \<Rightarrow> bool" where
  "numeric_name p = (parse_int (name p) \<noteq> None)"

definition in_direction :: "bool \<Rightarrow> 'a list \<Rightarrow> 'a list" where
  "in_direction reverse xs = (if reverse then rev xs else xs)"

text \<open>
  The candidates a loop body has appended, none where it raised; and the triple of
  benchmark, iteration and sub-unit of a candidate.
\<close>

definition results :: "error + 'a list \<Rightarrow> 'a list" where
  "results r = (case r of Inl _ \<Rightarrow> [] | Inr zs \<Rightarrow> zs)"


text \<open>
  What is observed of a run: the calls of \<^verbatim>\<open>shutil.copy2\<close>, the manifests written,
  and the state it leaves. \<open>discover\<close> gives the candidates a run finds, in the state
  in which it looks for them (lines 184 to 196).
\<close>

definition copies :: "event list \<Rightarrow> (path \<times> path) list" where
  "copies evs = List.map_filter (\<lambda>e. case e of Copy2 s d \<Rightarrow> Some (s, d) | _ \<Rightarrow> None) evs"

definition written :: "event list \<Rightarrow> json list" where
  "written evs = List.map_filter (\<lambda>e. case e of WriteText p j \<Rightarrow> Some j | _ \<Rightarrow> None) evs"

definition trace :: "outcome \<Rightarrow> event list" where
  "trace out = (case out of Exit c fs evs \<Rightarrow> evs | Raise e \<Rightarrow> [])"

definition state_after :: "outcome \<Rightarrow> fs option" where
  "state_after out = (case out of Exit c fs evs \<Rightarrow> Some fs | Raise e \<Rightarrow> None)"

definition discover :: "env \<Rightarrow> args \<Rightarrow> fs \<Rightarrow> error + candidate list" where
  "discover ev a fs =
     (case mkdir_parents (clock ev) fs (joinpath (site_dir a) ''images'') of
        Inl e \<Rightarrow> Inl e
      | Inr fs1 \<Rightarrow> collect_candidates fs1 a (joinpath (site_dir a) ''images''))"

text \<open>The path a candidate is copied to (line 50).\<close>

definition destination :: "candidate \<Rightarrow> path" where
  "destination c = joinpath (dst_dir c) (name (src c))"

section \<open>Example trees\<close>

text \<open>
  The scenario of the specification: iteration directories \<^verbatim>\<open>10\<close>, \<^verbatim>\<open>9\<close> and
  \<^verbatim>\<open>alpha\<close>, the last one the most recently modified, beside a regular file.
\<close>

definition iteration_tree :: fs where
  "iteration_tree =
     [([], Dir 0 0),
      ([''g''], Dir 1 0),
      ([''g'', ''9''], Dir 7 0),
      ([''g'', ''alpha''], Dir 99 0),
      ([''g'', ''10''], Dir 5 0),
      ([''g'', ''notes.txt''], File 7 3 None)]"

text \<open>
  Two source trees. Under \<^verbatim>\<open>g\<close>, in the layout of the first benchmark, iteration
  \<^verbatim>\<open>10\<close> holds two images in one leaf and no metadata, and iteration \<^verbatim>\<open>9\<close> an
  image with its metadata. Under \<^verbatim>\<open>d\<close>, in the layout of the second, stand the
  iterations \<^verbatim>\<open>alpha\<close>, \<^verbatim>\<open>beta\<close> and \<^verbatim>\<open>-5\<close>; one leaf of \<^verbatim>\<open>alpha\<close> holds a
  \<^verbatim>\<open>.png\<close> only.
\<close>

definition example_tree :: fs where
  "example_tree =
     [([], Dir 0 0),
      ([''g''], Dir 1 0),
      ([''g'', ''10''], Dir 5 0),
      ([''g'', ''9''], Dir 7 0),
      ([''g'', ''10'', ''generation''], Dir 5 0),
      ([''g'', ''10'', ''generation'', ''4''], Dir 5 0),
      ([''g'', ''10'', ''generation'', ''4'', ''samples''], Dir 5 0),
      ([''g'', ''10'', ''generation'', ''4'', ''samples'', ''b.jpg''], File 50 30 None),
      ([''g'', ''10'', ''generation'', ''4'', ''samples'', ''a.jpg''], File 51 31 None),
      ([''g'', ''9'', ''generation''], Dir 5 0),
      ([''g'', ''9'', ''generation'', ''2''], Dir 5 0),
      ([''g'', ''9'', ''generation'', ''2'', ''samples''], Dir 5 0),
      ([''g'', ''9'', ''generation'', ''2'', ''samples'', ''x.jpg''], File 40 20 None),
      ([''g'', ''9'', ''generation'', ''2'', ''samples'', ''x.json''],
         File 40 9 (Some (JObj [(''prompt'', JStr ''a red cube '')]))),
      ([''d''], Dir 1 0),
      ([''d'', ''alpha''], Dir 99 0),
      ([''d'', ''beta''], Dir 98 0),
      ([''d'', ''-5''], Dir 3 0),
      ([''d'', ''alpha'', ''generation''], Dir 5 0),
      ([''d'', ''alpha'', ''generation'', ''case''], Dir 5 0),
      ([''d'', ''alpha'', ''generation'', ''case'', ''a.jpg''], File 7 3 None),
      ([''d'', ''alpha'', ''generation'', ''plots''], Dir 5 0),
      ([''d'', ''alpha'', ''generation'', ''plots'', ''b.png''], File 7 3 None),
      ([''d'', ''beta'', ''generation''], Dir 5 0),
      ([''d'', ''beta'', ''generation'', ''case''], Dir 5 0),
      ([''d'', ''beta'', ''generation'', ''case'', ''a.jpg''], File 7 3 None),
      ([''d'', ''-5'', ''generation''], Dir 5 0),
      ([''d'', ''-5'', ''generation'', ''3''], Dir 5 0),
      ([''d'', ''-5'', ''generation'', ''3'', ''n.jpg''], File 7 3 None)]"

definition example_args :: args where
  "example_args =
     \<lparr> site_dir = [''s''],
       geneval_root = Some [''g''],
       dpg_root = Some [''d''],
       model_arg = [],
       max_items = 19000,
       latest_iters = None,
       file_budget = 20000,
       dry_run = False \<rparr>"

text \<open>The candidates of the example tree, in the order of their discovery.\<close>

definition discovered :: "candidate list" where
  "discovered =
     [\<lparr> src = [''g'', ''10'', ''generation'', ''4'', ''samples'', ''a.jpg''],
        dst_dir = [''s'', ''images'', ''geneval'', ''10'', ''4''],
        benchmark = ''geneval'', iter_dir = ''10'', sub_dir = ''4'',
        model = ''unknown-model'', prompt = [], mtime = 51, iter_num = 10,
        sub_num = 4, item_id = ''geneval-10-4-a'' \<rparr>,
      \<lparr> src = [''g'', ''9'', ''generation'', ''2'', ''samples'', ''x.jpg''],
        dst_dir = [''s'', ''images'', ''geneval'', ''9'', ''2''],
        benchmark = ''geneval'', iter_dir = ''9'', sub_dir = ''2'',
        model = ''unknown-model'', prompt = ''a red cube'', mtime = 40,
        iter_num = 9, sub_num = 2, item_id = ''geneval-9-2-x'' \<rparr>,
      \<lparr> src = [''d'', ''-5'', ''generation'', ''3'', ''n.jpg''],
        dst_dir = [''s'', ''images'', ''dpg'', ''-5'', ''3''],
        benchmark = ''dpg'', iter_dir = ''-5'', sub_dir = ''3'',
        model = ''unknown-model'', prompt = [], mtime = 7, iter_num = - 5,
        sub_num = 3, item_id = ''dpg--5-3-n'' \<rparr>,
      \<lparr> src = [''d'', ''alpha'', ''generation'', ''case'', ''a.jpg''],
        dst_dir = [''s'', ''images'', ''dpg'', ''alpha'', ''case''],
        benchmark = ''dpg'', iter_dir = ''alpha'', sub_dir = ''case'',
        model = ''unknown-model'', prompt = [], mtime = 7, iter_num = - 1,
        sub_num = - 1, item_id = ''dpg-alpha-case-a'' \<rparr>,
      \<lparr> src = [''d'', ''beta'', ''generation'', ''case'', ''a.jpg''],
        dst_dir = [''s'', ''images'', ''dpg'', ''beta'', ''case''],
        benchmark = ''dpg'', iter_dir = ''beta'', sub_dir = ''case'',
        model = ''unknown-model'', prompt = [], mtime = 7, iter_num = - 1,
        sub_num = - 1, item_id = ''dpg-beta-case-a'' \<rparr>]"

text \<open>
  A site that holds its entry page only, beside a source tree of the second benchmark
  with the iterations \<^verbatim>\<open>2\<close> and \<^verbatim>\<open>1\<close>, one image each; and the same with a manifest
  already in place.
\<close>

definition run_tree :: fs where
  "run_tree =
     [([], Dir 0 0),
      ([''d''], Dir 1 0),
      ([''d'', ''2''], Dir 2 0),
      ([''d'', ''1''], Dir 2 0),
      ([''d'', ''2'', ''generation''], Dir 2 0),
      ([''d'', ''2'', ''generation'', ''c''], Dir 2 0),
      ([''d'', ''2'', ''generation'', ''c'', ''a.jpg''], File 7 3 None),
      ([''d'', ''1'', ''generation''], Dir 2 0),
      ([''d'', ''1'', ''generation'', ''c''], Dir 2 0),
      ([''d'', ''1'', ''generation'', ''c'', ''a.jpg''], File 6 4 None),
      ([''s''], Dir 9 0),
      ([''s'', ''index.html''], File 9 120 None)]"

definition deployed_tree :: fs where
  "deployed_tree =
     run_tree @ [([''s'', ''manifest.json''], File 9 40 (Some (JObj [(''items'', JList [JNum 1])])))]"

definition run_args :: args where
  "run_args =
     \<lparr> site_dir = [''s''],
       geneval_root = None,
       dpg_root = Some [''d''],
       model_arg = [],
       max_items = 19000,
       latest_iters = None,
       file_budget = 20000,
       dry_run = False \<rparr>"

definition run_env :: env where
  "run_env = \<lparr> clock = 1000, created_at = ''2026-11-04 12:00:00'', dumps_size = (\<lambda>j. 2) \<rparr>"

definition found :: "candidate list" where
  "found =
     [\<lparr> src = [''d'', ''2'', ''generation'', ''c'', ''a.jpg''],
        dst_dir = [''s'', ''images'', ''dpg'', ''2'', ''c''],
        benchmark = ''dpg'', iter_dir = ''2'', sub_dir = ''c'',
        model = ''unknown-model'', prompt = [], mtime = 7, iter_num = 2,
        sub_num = - 1, item_id = ''dpg-2-c-a'' \<rparr>,
      \<lparr> src = [''d'', ''1'', ''generation'', ''c'', ''a.jpg''],
        dst_dir = [''s'', ''images'', ''dpg'', ''1'', ''c''],
        benchmark = ''dpg'', iter_dir = ''1'', sub_dir = ''c'',
        model = ''unknown-model'', prompt = [], mtime = 6, iter_num = 1,
        sub_num = - 1, item_id = ''dpg-1-c-a'' \<rparr>]"



section \<open>What \<open>parse_int\<close> accepts\<close>

lemma split_on_ne [simp]: "split_on sep s \<noteq> []"
  by (induction s) (auto split: list.splits)

lemma isdigit_not_underscore: "isdigit d \<Longrightarrow> d \<noteq> CHR ''_''"
  by (auto simp: isdigit_def)

lemma dg_digit_cons:
  "isdigit d \<Longrightarrow> isdigit c \<Longrightarrow> digit_groups (d # c # cs) = digit_groups (c # cs)"
  by (auto simp: digit_groups_def dest: isdigit_not_underscore split: list.splits)

lemma dg_us:
  "isdigit d \<Longrightarrow> digit_groups (d # CHR ''_'' # cs) = digit_groups cs"
  by (auto simp: digit_groups_def dest: isdigit_not_underscore split: list.splits)

lemma dg_bad:
  "\<not> isdigit c \<Longrightarrow> c \<noteq> CHR ''_'' \<Longrightarrow> \<not> digit_groups (c # cs)"
  by (auto simp: digit_groups_def split: list.splits)

lemma dg_bad2:
  "isdigit d \<Longrightarrow> \<not> isdigit c \<Longrightarrow> c \<noteq> CHR ''_'' \<Longrightarrow> \<not> digit_groups (d # c # cs)"
  by (auto simp: digit_groups_def split: list.splits)

lemma dg_us_first: "\<not> digit_groups (CHR ''_'' # cs)"
  by (auto simp: digit_groups_def split: list.splits)

lemma dg_nil: "\<not> digit_groups []"
  by (auto simp: digit_groups_def)

lemma dg_single: "isdigit d \<Longrightarrow> digit_groups [d]"
  by (auto simp: digit_groups_def dest: isdigit_not_underscore)

lemma us_not_digit: "\<not> isdigit CHR ''_''"
  by (simp add: isdigit_def)

lemma digits_from_eq:
  "isdigit d \<Longrightarrow>
   digits_from acc cs =
     (if digit_groups (d # cs) then Some (foldl (\<lambda>a c. 10 * a + digit c) acc (filter isdigit cs))
      else None)"
proof (induction acc cs arbitrary: d rule: digits_from.induct)
  case (1 acc)
  then show ?case by (simp add: dg_single)
next
  case (2 acc c)
  then show ?case
    by (cases "c = CHR ''_''") (auto simp: dg_digit_cons dg_single dg_us dg_nil dg_bad2 us_not_digit)
next
  case (3 acc c e cs)
  show ?case
  proof (cases "isdigit c")
    case True
    with 3(1)[OF True True] 3(3) show ?thesis by (simp add: dg_digit_cons)
  next
    case False
    show ?thesis
    proof (cases "c = CHR ''_''")
      case True
      note us = this
      show ?thesis
      proof (cases "isdigit e")
        case True
        with 3(2)[OF False _ True] us 3(3) show ?thesis
          by (simp add: dg_us us_not_digit)
      next
        case False
        with us 3(3) show ?thesis
          by (cases "e = CHR ''_''") (simp_all add: dg_us us_not_digit dg_us_first dg_bad)
      qed
    next
      case False
      with \<open>\<not> isdigit c\<close> 3(3) show ?thesis by (simp add: dg_bad2)
    qed
  qed
qed

lemma digits_value_eq:
  "digits_value s =
     (if digit_groups s \<and> int (length (filter isdigit s)) \<le> int_max_str_digits
      then Some (decimal s) else None)"
proof (cases s)
  case Nil
  then show ?thesis by (simp add: digits_value_def dg_nil)
next
  case (Cons c cs)
  show ?thesis
  proof (cases "isdigit c")
    case True
    then show ?thesis
      using digits_from_eq[OF True, of "digit c" cs] Cons
      by (simp add: digits_value_def decimal_def)
  next
    case False
    then show ?thesis
      using Cons by (cases "c = CHR ''_''") (simp_all add: digits_value_def dg_us_first dg_bad)
  qed
qed

lemma sign_not_digit: "\<not> isdigit CHR ''-''" "\<not> isdigit CHR ''+''"
  by (simp_all add: isdigit_def)

lemma int_of_str_eq:
  "int_of_str s =
     (if int_literal (int_strip s) then Some (literal_value (int_strip s)) else None)"
proof (cases "int_strip s")
  case Nil
  then show ?thesis by (simp add: int_of_str_def int_literal_def unsigned_def dg_nil)
next
  case (Cons c cs)
  then show ?thesis
    by (simp add: int_of_str_def int_literal_def unsigned_def literal_value_def digits_value_eq
        decimal_def sign_not_digit)
qed

lemma dropWhile_id: "xs \<noteq> [] \<Longrightarrow> \<not> P (hd xs) \<Longrightarrow> dropWhile P xs = xs"
  by (cases xs) auto

lemma digit_not_space: "isdigit c \<Longrightarrow> \<not> int_space c"
  by (auto simp: isdigit_def int_space_def)

lemma int_strip_id:
  assumes "s \<noteq> []" "\<not> int_space (hd s)" "\<not> int_space (last s)"
  shows "int_strip s = s"
proof -
  have "dropWhile int_space s = s" using assms by (simp add: dropWhile_id)
  moreover have "dropWhile int_space (rev s) = rev s"
    using assms by (simp add: dropWhile_id hd_rev)
  ultimately show ?thesis by (simp add: int_strip_def)
qed

lemma all_digits_groups: "s \<noteq> [] \<Longrightarrow> list_all isdigit s \<Longrightarrow> digit_groups s"
proof (induction s)
  case Nil
  then show ?case by simp
next
  case (Cons c cs)
  then show ?case
    by (cases cs) (auto simp: dg_single dg_digit_cons)
qed

lemma sign_not_space: "\<not> int_space CHR ''-''" "\<not> int_space CHR ''+''"
  by (simp_all add: int_space_def)

lemma base10_strip: "base10_integer s \<Longrightarrow> int_strip s = s"
proof -
  assume b: "base10_integer s"
  then obtain c cs where s: "s = c # cs" by (cases s) (auto simp: base10_integer_def unsigned_def)
  have "\<not> int_space c"
  proof (cases "c = CHR ''-'' \<or> c = CHR ''+''")
    case True
    then show ?thesis using sign_not_space by auto
  next
    case False
    with b s have "isdigit c" by (simp add: base10_integer_def unsigned_def)
    then show ?thesis by (rule digit_not_space)
  qed
  moreover have "isdigit (last s)"
  proof (cases "c = CHR ''-'' \<or> c = CHR ''+''")
    case True
    with b s have "cs \<noteq> []" "list_all isdigit cs" by (auto simp: base10_integer_def unsigned_def)
    then have "isdigit (last cs)" by (simp add: list_all_iff)
    then show ?thesis using s \<open>cs \<noteq> []\<close> by simp
  next
    case False
    with b s have "list_all isdigit s" by (auto simp: base10_integer_def unsigned_def)
    moreover have "last s \<in> set s" using s by (intro last_in_set) simp
    ultimately show ?thesis by (simp add: list_all_iff)
  qed
  ultimately show ?thesis using s by (simp add: int_strip_id digit_not_space)
qed

lemma base10_literal:
  assumes "base10_integer s" "int (length (unsigned s)) \<le> int_max_str_digits"
  shows "int_literal s"
proof -
  from assms(1) have d: "list_all isdigit (unsigned s)" and n: "unsigned s \<noteq> []"
    by (simp_all add: base10_integer_def)
  from d have "filter isdigit (unsigned s) = unsigned s" by (simp add: list_all_iff)
  with assms(2) n d show ?thesis by (simp add: int_literal_def all_digits_groups)
qed

text \<open>
  Claim C9, as amended. For a name of characters below U+0100, \<open>parse_int\<close> returns
  an integer exactly when the name, with the whitespace that \<^verbatim>\<open>int()\<close> skips removed
  at both ends, is an optional sign followed by decimal digits, no more than 4300, in
  non-empty groups separated by single underscores, and that integer is the value of
  the digits; it returns none for every other string. Every string of at most 4300
  digits after an optional sign, which as a whole is a base-10 integer, is accepted
  with its value.
\<close>

theorem parse_int_accepts:
  "parse_int s = (if int_literal (int_strip s) then Some (literal_value (int_strip s)) else None)
   \<and> (base10_integer s \<and> int (length (unsigned s)) \<le> int_max_str_digits
        \<longrightarrow> parse_int s = Some (literal_value s))"
  using base10_strip[of s] base10_literal[of s]
  by (auto simp: parse_int_def int_of_str_eq)

text \<open>
  The theorem at \<^verbatim>\<open>"-12"\<close>, \<^verbatim>\<open>" 7 "\<close>, \<^verbatim>\<open>"12abc"\<close> and at \<^verbatim>\<open>"7"\<close> after the
  separator FS (U+001C), which \<^verbatim>\<open>int()\<close> does not skip.
\<close>

theorem parse_int_accepts_witness:
  "base10_integer ''-12'' \<and> int (length (unsigned ''-12'')) \<le> int_max_str_digits
   \<and> parse_int ''-12'' = Some (- 12) \<and> int_literal (int_strip '' 7 '')
   \<and> parse_int '' 7 '' = Some 7 \<and> \<not> int_literal (int_strip ''12abc'')
   \<and> parse_int ''12abc'' = None
   \<and> \<not> int_literal (int_strip [CHR 0x1C, CHR ''7'']) \<and> parse_int [CHR 0x1C, CHR ''7''] = None"
proof -
  have h: "base10_integer ''-12''" "int (length (unsigned ''-12'')) \<le> int_max_str_digits"
    by code_simp+
  have v: "literal_value ''-12'' = - 12" "literal_value (int_strip '' 7 '') = 7" by code_simp+
  have l: "int_literal (int_strip '' 7 '')" "\<not> int_literal (int_strip ''12abc'')"
    "\<not> int_literal (int_strip [CHR 0x1C, CHR ''7''])"
    by code_simp+
  have t: "int_literal (int_strip ''-12'')" "literal_value (int_strip ''-12'') = - 12"
    by code_simp+
  from parse_int_accepts[of "''-12''"] parse_int_accepts[of "'' 7 ''"]
    parse_int_accepts[of "''12abc''"] parse_int_accepts[of "[CHR 0x1C, CHR ''7'']"] h v l t
  show ?thesis by simp
qed

text \<open>
  Claim C9 as stated fails: \<^verbatim>\<open>"1_0"\<close>, \<^verbatim>\<open>" 7"\<close> and \<^verbatim>\<open>"7"\<close> after a no-break
  space (U+00A0) are accepted, and none of them is as a whole a base-10 integer.
\<close>

theorem parse_int_underscore_counterexample:
  "parse_int ''1_0'' = Some 10 \<and> \<not> base10_integer ''1_0''
   \<and> parse_int '' 7'' = Some 7 \<and> \<not> base10_integer '' 7''
   \<and> parse_int [CHR 0xA0, CHR ''7''] = Some 7 \<and> \<not> base10_integer [CHR 0xA0, CHR ''7'']"
  by code_simp

section \<open>The global order\<close>

lemma mset_py_sort: "mset (py_sort f r xs) = mset xs"
  by (simp add: py_sort_def)

lemma set_py_sort: "set (py_sort f r xs) = set xs"
  by (simp add: py_sort_def)

lemma length_py_sort: "length (py_sort f r xs) = length xs"
  by (simp add: py_sort_def)


lemma py_sort_sorted: "sorted (map f (in_direction r (py_sort f r xs)))"
  by (simp add: py_sort_def in_direction_def)

lemma py_sort_descending: "sorted_wrt (\<lambda>a b. f b \<le> f a) (py_sort f True xs)"
proof -
  have "sorted_wrt (\<lambda>a b. f a \<le> f b) (sort_key f (rev xs))"
    using sorted_sort_key[of f "rev xs"] by (simp add: sorted_map)
  then show ?thesis by (simp add: py_sort_def sorted_wrt_rev)
qed

lemma key_ge_iff: "key_ge a b \<longleftrightarrow> sort_key_of b \<le> sort_key_of a"
  by (auto simp: key_ge_def sort_key_of_def less_eq_prod_def)


text \<open>
  What the crawlers find in the example tree, and its sorted order: used where a
  statement is tried on the example.
\<close>

lemma collect_example:
  "collect_candidates example_tree example_args [''s'', ''images''] = Inr discovered"
  by code_simp

lemma sort_discovered:
  "map item_id (sort_candidates discovered)
   = [''geneval-10-4-a'', ''geneval-9-2-x'', ''dpg-alpha-case-a'', ''dpg-beta-case-a'',
      ''dpg--5-3-n'']"
  by code_simp


section \<open>The order of child directories\<close>

lemma filter_partition_append:
  assumes "\<forall>x\<in>set xs. P x" "\<forall>y\<in>set ys. \<not> P y"
  shows "filter P (xs @ ys) = xs" "filter (\<lambda>x. \<not> P x) (xs @ ys) = ys"
  using assms by (auto simp: filter_empty_conv intro: filter_True)

lemma iterdir_dir: "is_dir fs root \<Longrightarrow> iterdir fs root = Inr (children fs root)"
  by (auto simp: is_dir_def iterdir_def split: option.splits node.splits)

lemma iter_dirs_eq:
  assumes "is_dir fs root"
  shows "iter_dirs_numeric_sorted fs root r =
         Inr (py_sort int_name r (filter numeric_name (filter (is_dir fs) (children fs root)))
              @ py_sort (\<lambda>p. st_mtime (stat fs p)) r
                  (filter (\<lambda>p. \<not> numeric_name p) (filter (is_dir fs) (children fs root))))"
proof -
  have a: "map fst (filter (\<lambda>(p, n). n \<noteq> None) (map (\<lambda>p. (p, parse_int (name p))) ds))
           = filter numeric_name ds" for ds
    by (induction ds) (auto simp: numeric_name_def)
  have b: "map fst (filter (\<lambda>(p, n). n = None) (map (\<lambda>p. (p, parse_int (name p))) ds))
           = filter (\<lambda>p. \<not> numeric_name p) ds" for ds
    by (induction ds) (auto simp: numeric_name_def)
  show ?thesis
    unfolding iter_dirs_numeric_sorted_def iterdir_dir[OF assms] Let_def a b by simp
qed

text \<open>
  Claim C7. For a directory, \<open>iter_dirs_numeric_sorted\<close> returns its subdirectories,
  each once: the numeric-named ones, sorted by integer value, followed by the others,
  sorted by modification time, each group in the requested direction; every
  numeric-named directory stands before every other one.
\<close>

theorem iter_dirs_numeric_sorted_groups:
  assumes "is_dir fs root"
  shows "\<exists>ps. iter_dirs_numeric_sorted fs root r = Inr ps
      \<and> mset ps = mset (filter (is_dir fs) (children fs root))
      \<and> ps = filter numeric_name ps @ filter (\<lambda>p. \<not> numeric_name p) ps
      \<and> sorted (map int_name (in_direction r (filter numeric_name ps)))
      \<and> sorted (map (\<lambda>p. st_mtime (stat fs p)) (in_direction r (filter (\<lambda>p. \<not> numeric_name p) ps)))
      \<and> (\<forall>i j. i < length ps \<and> j < length ps \<and> numeric_name (ps ! i) \<and> \<not> numeric_name (ps ! j)
             \<longrightarrow> i < j)"
proof -
  define ds where "ds = filter (is_dir fs) (children fs root)"
  define A where "A = py_sort int_name r (filter numeric_name ds)"
  define B where "B = py_sort (\<lambda>p. st_mtime (stat fs p)) r (filter (\<lambda>p. \<not> numeric_name p) ds)"
  have eq: "iter_dirs_numeric_sorted fs root r = Inr (A @ B)"
    using iter_dirs_eq[OF assms] by (simp add: A_def B_def ds_def)
  have A: "\<forall>x\<in>set A. numeric_name x" and B: "\<forall>y\<in>set B. \<not> numeric_name y"
    by (auto simp: A_def B_def set_py_sort)
  have fA: "filter numeric_name (A @ B) = A" and fB: "filter (\<lambda>p. \<not> numeric_name p) (A @ B) = B"
    using filter_partition_append[OF A B] by simp_all
  have m: "mset (A @ B) = mset ds"
    by (simp add: A_def B_def mset_py_sort)
  have sA: "sorted (map int_name (in_direction r A))"
    unfolding A_def by (rule py_sort_sorted)
  have sB: "sorted (map (\<lambda>p. st_mtime (stat fs p)) (in_direction r B))"
    unfolding B_def by (rule py_sort_sorted)
  have idx: "i < j" if "i < length (A @ B)" "j < length (A @ B)"
    "numeric_name ((A @ B) ! i)" "\<not> numeric_name ((A @ B) ! j)" for i j
  proof -
    have "i < length A"
    proof (rule ccontr)
      assume "\<not> i < length A"
      then have "(A @ B) ! i \<in> set B" using that(1) by (simp add: nth_append)
      with B that(3) show False by blast
    qed
    moreover have "length A \<le> j"
    proof (rule ccontr)
      assume "\<not> length A \<le> j"
      then have "(A @ B) ! j \<in> set A" by (simp add: nth_append)
      with A that(4) show False by blast
    qed
    ultimately show ?thesis by simp
  qed
  show ?thesis
    using eq m sA sB idx by (intro exI[of _ "A @ B"]) (simp add: fA fB ds_def del: filter_append)
qed

text \<open>
  The theorem at the scenario of the specification: \<^verbatim>\<open>10\<close>, \<^verbatim>\<open>9\<close>, then
  \<^verbatim>\<open>alpha\<close>, whatever its modification time.
\<close>

theorem iter_dirs_numeric_sorted_groups_witness:
  "is_dir iteration_tree [''g'']
   \<and> iter_dirs_numeric_sorted iteration_tree [''g''] True
       = Inr [[''g'', ''10''], [''g'', ''9''], [''g'', ''alpha'']]
   \<and> sorted (map int_name (in_direction True
        (filter numeric_name [[''g'', ''10''], [''g'', ''9''], [''g'', ''alpha'']])))"
proof -
  have h: "is_dir iteration_tree [''g'']" by code_simp
  have e: "iter_dirs_numeric_sorted iteration_tree [''g''] True
           = Inr [[''g'', ''10''], [''g'', ''9''], [''g'', ''alpha'']]"
    by code_simp
  from iter_dirs_numeric_sorted_groups[OF h, of True] e h show ?thesis by auto
qed

section \<open>Where candidates come from\<close>

lemma gather_concat:
  "gather f xs = Inr ys \<Longrightarrow> ys = concat (map (\<lambda>x. results (f x)) xs)"
  by (induction xs arbitrary: ys) (auto simp: results_def split: sum.splits)

lemma gather_ok:
  "gather f xs = Inr ys \<Longrightarrow> x \<in> set xs \<Longrightarrow> \<exists>zs. f x = Inr zs"
  by (induction xs arbitrary: ys) (auto split: sum.splits)

lemma gather_mem:
  assumes "gather f xs = Inr ys" "c \<in> set ys"
  shows "\<exists>x zs. x \<in> set xs \<and> f x = Inr zs \<and> c \<in> set zs"
proof -
  from gather_concat[OF assms(1)] assms(2)
  obtain x where x: "x \<in> set xs" "c \<in> set (results (f x))" by auto
  from gather_ok[OF assms(1) x(1)] obtain zs where "f x = Inr zs" by blast
  with x show ?thesis by (auto simp: results_def)
qed

lemma set_latest: "set (latest n xs) \<subseteq> set xs"
  by (auto simp: latest_def split: option.splits dest: in_set_takeD)


lemma set_map_filter: "set (List.map_filter f xs) = {y. \<exists>x\<in>set xs. f x = Some y}"
  by (force simp: List.map_filter_def image_iff)


lemma distinct_children: "distinct (map fst fs) \<Longrightarrow> distinct (children fs p)"
  by (simp add: children_def)


lemma iter_dirs_set:
  assumes "iter_dirs_numeric_sorted fs root r = Inr ps"
  shows "set ps = {q \<in> set (children fs root). is_dir fs q}"
    and "distinct (map fst fs) \<Longrightarrow> distinct ps"
proof -
  from assms have d: "is_dir fs root"
    by (auto simp: iter_dirs_numeric_sorted_def iterdir_def is_dir_def
        split: option.splits node.splits sum.splits)
  define ds where "ds = filter (is_dir fs) (children fs root)"
  have "mset (py_sort int_name r (filter numeric_name ds)
              @ py_sort (\<lambda>p. st_mtime (stat fs p)) r (filter (\<lambda>p. \<not> numeric_name p) ds))
        = mset ds"
    by (simp add: mset_py_sort)
  with iter_dirs_eq[OF d, of r] assms
  have m: "mset ps = mset (filter (is_dir fs) (children fs root))"
    unfolding ds_def by simp
  then have "set ps = set (filter (is_dir fs) (children fs root))" by (rule mset_eq_setD)
  then show "set ps = {q \<in> set (children fs root). is_dir fs q}" by auto
  assume "distinct (map fst fs)"
  then have "distinct (filter (is_dir fs) (children fs root))"
    by (simp add: distinct_children)
  with m show "distinct ps" by (metis mset_eq_imp_distinct_iff)
qed




lemma dpg_leaf_Some:
  assumes "dpg_leaf fs io m it sd = Some c"
  shows "\<exists>jpg. first_jpg fs sd = Some jpg
           \<and> c = make_candidate fs jpg
                   (joinpath (joinpath (joinpath io ''dpg'') (name it)) (name sd))
                   ''dpg'' it sd m (prompt_of fs jpg)"
  using assms by (auto simp: dpg_leaf_def Let_def split: option.splits)

lemma geneval_leaf_Some:
  assumes "geneval_leaf fs io m it sd = Some c"
  shows "\<exists>jpg. first_jpg fs (joinpath sd ''samples'') = Some jpg
           \<and> c = make_candidate fs jpg
                   (joinpath (joinpath (joinpath io ''geneval'') (name it)) (name sd))
                   ''geneval'' it sd m (prompt_of fs jpg)"
  using assms by (auto simp: geneval_leaf_def Let_def split: option.splits if_splits)

lemma dpg_iter_mem:
  assumes "dpg_iter fs io m it = Inr zs" "c \<in> set zs"
  shows "\<exists>sd. sd \<in> set (children fs (joinpath it ''generation'')) \<and> is_dir fs sd
              \<and> dpg_leaf fs io m it sd = Some c"
proof -
  from assms obtain ds where
    ds: "child_dirs_numeric_sorted fs (joinpath it ''generation'') True = Inr ds"
    and zs: "zs = List.map_filter (dpg_leaf fs io m it) ds"
    by (auto simp: dpg_iter_def Let_def split: if_splits sum.splits)
  from zs assms(2) obtain sd where "sd \<in> set ds" "dpg_leaf fs io m it sd = Some c"
    by (auto simp: set_map_filter)
  with iter_dirs_set(1)[OF ds[unfolded child_dirs_numeric_sorted_def]] show ?thesis by auto
qed

lemma geneval_iter_mem:
  assumes "geneval_iter fs io m it = Inr zs" "c \<in> set zs"
  shows "\<exists>sd. sd \<in> set (children fs (joinpath it ''generation'')) \<and> is_dir fs sd
              \<and> geneval_leaf fs io m it sd = Some c"
proof -
  from assms obtain ds where
    ds: "child_dirs_numeric_sorted fs (joinpath it ''generation'') True = Inr ds"
    and zs: "zs = List.map_filter (geneval_leaf fs io m it) ds"
    by (auto simp: geneval_iter_def Let_def split: if_splits sum.splits)
  from zs assms(2) obtain sd where "sd \<in> set ds" "geneval_leaf fs io m it sd = Some c"
    by (auto simp: set_map_filter)
  with iter_dirs_set(1)[OF ds[unfolded child_dirs_numeric_sorted_def]] show ?thesis by auto
qed

lemma crawl_dpg_mem:
  assumes "crawl_dpg_candidates fs root io m li = Inr cs" "c \<in> set cs"
  shows "\<exists>it sd. it \<in> set (children fs root) \<and> is_dir fs it
           \<and> sd \<in> set (children fs (joinpath it ''generation'')) \<and> is_dir fs sd
           \<and> dpg_leaf fs io m it sd = Some c"
proof -
  from assms(1) obtain iters where
    it: "iter_dirs_numeric_sorted fs root True = Inr iters"
    and g: "gather (dpg_iter fs io m) (latest li iters) = Inr cs"
    by (auto simp: crawl_dpg_candidates_def split: sum.splits)
  from gather_mem[OF g assms(2)] obtain x zs where
    x: "x \<in> set (latest li iters)" "dpg_iter fs io m x = Inr zs" "c \<in> set zs" by blast
  from x(1) set_latest iter_dirs_set(1)[OF it]
  have "x \<in> set (children fs root)" "is_dir fs x" by auto
  with dpg_iter_mem[OF x(2,3)] show ?thesis by blast
qed

lemma crawl_geneval_mem:
  assumes "crawl_geneval_candidates fs root io m li = Inr cs" "c \<in> set cs"
  shows "\<exists>it sd. it \<in> set (children fs root) \<and> is_dir fs it
           \<and> sd \<in> set (children fs (joinpath it ''generation'')) \<and> is_dir fs sd
           \<and> geneval_leaf fs io m it sd = Some c"
proof -
  from assms(1) obtain iters where
    it: "iter_dirs_numeric_sorted fs root True = Inr iters"
    and g: "gather (geneval_iter fs io m) (latest li iters) = Inr cs"
    by (auto simp: crawl_geneval_candidates_def split: sum.splits)
  from gather_mem[OF g assms(2)] obtain x zs where
    x: "x \<in> set (latest li iters)" "geneval_iter fs io m x = Inr zs" "c \<in> set zs" by blast
  from x(1) set_latest iter_dirs_set(1)[OF it]
  have "x \<in> set (children fs root)" "is_dir fs x" by auto
  with geneval_iter_mem[OF x(2,3)] show ?thesis by blast
qed

text \<open>Every candidate of a run is made by \<open>make_candidate\<close> from the first image of a leaf.\<close>

lemma collect_split:
  assumes "collect_candidates fs a io = Inr cs"
  obtains gs ds where
    "cs = gs @ ds"
    "case geneval_root a of None \<Rightarrow> gs = []
     | Some g \<Rightarrow> crawl_geneval_candidates fs g io (infer_model g (model_arg a)) (latest_iters a) = Inr gs"
    "case dpg_root a of None \<Rightarrow> ds = []
     | Some d \<Rightarrow> crawl_dpg_candidates fs d io (infer_model d (model_arg a)) (latest_iters a) = Inr ds"
  using assms by (auto simp: collect_candidates_def split: sum.splits option.splits)

lemma collect_mem:
  assumes "collect_candidates fs a io = Inr cs" "c \<in> set cs"
  shows "\<exists>jpg dst bench it sd m leaf.
           c = make_candidate fs jpg dst bench it sd m (prompt_of fs jpg)
           \<and> first_jpg fs leaf = Some jpg"
proof -
  from collect_split[OF assms(1)] obtain gs ds where
    cs: "cs = gs @ ds"
    and gs: "case geneval_root a of None \<Rightarrow> gs = []
     | Some g \<Rightarrow> crawl_geneval_candidates fs g io (infer_model g (model_arg a)) (latest_iters a) = Inr gs"
    and ds: "case dpg_root a of None \<Rightarrow> ds = []
     | Some d \<Rightarrow> crawl_dpg_candidates fs d io (infer_model d (model_arg a)) (latest_iters a) = Inr ds"
    by blast
  from cs assms(2) consider "c \<in> set gs" | "c \<in> set ds" by auto
  then show ?thesis
  proof cases
    case 1
    with gs obtain g where
      "crawl_geneval_candidates fs g io (infer_model g (model_arg a)) (latest_iters a) = Inr gs"
      by (auto split: option.splits)
    from crawl_geneval_mem[OF this 1] obtain it sd where
      "geneval_leaf fs io (infer_model g (model_arg a)) it sd = Some c"
      by blast
    from geneval_leaf_Some[OF this] show ?thesis by blast
  next
    case 2
    with ds obtain d where
      "crawl_dpg_candidates fs d io (infer_model d (model_arg a)) (latest_iters a) = Inr ds"
      by (auto split: option.splits)
    from crawl_dpg_mem[OF this 2] obtain it sd where
      "dpg_leaf fs io (infer_model d (model_arg a)) it sd = Some c"
      by blast
    from dpg_leaf_Some[OF this] show ?thesis by blast
  qed
qed

lemma make_candidate_fields [simp]:
  "src (make_candidate fs jpg dst bench it sd m prm) = jpg"
  "dst_dir (make_candidate fs jpg dst bench it sd m prm) = dst"
  "benchmark (make_candidate fs jpg dst bench it sd m prm) = bench"
  "iter_dir (make_candidate fs jpg dst bench it sd m prm) = name it"
  "sub_dir (make_candidate fs jpg dst bench it sd m prm) = name sd"
  "prompt (make_candidate fs jpg dst bench it sd m prm) = prm"
  "iter_num (make_candidate fs jpg dst bench it sd m prm)
     = (case parse_int (name it) of Some n \<Rightarrow> n | None \<Rightarrow> - 1)"
  "sub_num (make_candidate fs jpg dst bench it sd m prm)
     = (case parse_int (name sd) of Some n \<Rightarrow> n | None \<Rightarrow> - 1)"
  by (simp_all add: make_candidate_def)

lemma collect_ranked:
  assumes "collect_candidates fs a io = Inr cs" "c \<in> set cs"
  shows "iter_num c = (case parse_int (iter_dir c) of Some n \<Rightarrow> n | None \<Rightarrow> - 1)"
    and "sub_num c = (case parse_int (sub_dir c) of Some n \<Rightarrow> n | None \<Rightarrow> - 1)"
  using collect_mem[OF assms] by auto


section \<open>The rank of a non-numeric label\<close>

lemma sort_candidates_set [simp]:
  "set (sort_candidates cs) = set cs" "length (sort_candidates cs) = length cs"
  by (simp_all add: sort_candidates_def set_py_sort length_py_sort)

lemma sort_candidates_nth_ge:
  assumes "j < i" "i < length cs"
  shows "key_ge (sort_candidates cs ! j) (sort_candidates cs ! i)"
proof -
  have "sorted_wrt key_ge (sort_candidates cs)"
    using py_sort_descending[of sort_key_of cs]
    by (simp add: sort_candidates_def key_ge_iff[abs_def])
  then show ?thesis using assms by (simp add: sorted_wrt_iff_nth_less)
qed

text \<open>
  Claim C6, as amended. Every candidate of a run whose iteration label (sub-unit label)
  is non-numeric has rank \<open>- 1\<close> for that key. In the sorted list every candidate whose
  iteration label is a number that is not negative stands before every candidate whose
  iteration label is non-numeric; and among candidates of one iteration rank, every
  candidate whose sub-unit label is a number that is not negative stands before every
  candidate whose sub-unit label is non-numeric.
\<close>

theorem non_numeric_rank:
  assumes "collect_candidates fs a io = Inr cs"
  shows "(\<forall>c\<in>set cs. (parse_int (iter_dir c) = None \<longrightarrow> iter_num c = - 1)
                    \<and> (parse_int (sub_dir c) = None \<longrightarrow> sub_num c = - 1))
     \<and> (\<forall>i j. i < length cs \<and> j < length cs
           \<and> (\<exists>n. parse_int (iter_dir (sort_candidates cs ! i)) = Some n \<and> 0 \<le> n)
           \<and> parse_int (iter_dir (sort_candidates cs ! j)) = None \<longrightarrow> i < j)
     \<and> (\<forall>i j. i < length cs \<and> j < length cs
           \<and> iter_num (sort_candidates cs ! i) = iter_num (sort_candidates cs ! j)
           \<and> (\<exists>n. parse_int (sub_dir (sort_candidates cs ! i)) = Some n \<and> 0 \<le> n)
           \<and> parse_int (sub_dir (sort_candidates cs ! j)) = None \<longrightarrow> i < j)"
proof (intro conjI allI impI ballI)
  fix c assume "c \<in> set cs" "parse_int (iter_dir c) = None"
  then show "iter_num c = - 1" using collect_ranked(1)[OF assms] by simp
next
  fix c assume "c \<in> set cs" "parse_int (sub_dir c) = None"
  then show "sub_num c = - 1" using collect_ranked(2)[OF assms] by simp
next
  fix i j
  let ?s = "sort_candidates cs"
  assume h: "i < length cs \<and> j < length cs
           \<and> (\<exists>n. parse_int (iter_dir (?s ! i)) = Some n \<and> 0 \<le> n)
           \<and> parse_int (iter_dir (?s ! j)) = None"
  then have mi: "?s ! i \<in> set cs" and mj: "?s ! j \<in> set cs"
    by (metis nth_mem sort_candidates_set)+
  from h collect_ranked(1)[OF assms mi] have ri: "0 \<le> iter_num (?s ! i)" by auto
  from h collect_ranked(1)[OF assms mj] have rj: "iter_num (?s ! j) = - 1" by auto
  show "i < j"
  proof (rule ccontr)
    assume "\<not> i < j"
    moreover from h have "i \<noteq> j" by auto
    ultimately have "j < i" by simp
    from sort_candidates_nth_ge[OF this] h have "key_ge (?s ! j) (?s ! i)" by simp
    with ri rj show False by (auto simp: key_ge_def)
  qed
next
  fix i j
  let ?s = "sort_candidates cs"
  assume h: "i < length cs \<and> j < length cs
           \<and> iter_num (?s ! i) = iter_num (?s ! j)
           \<and> (\<exists>n. parse_int (sub_dir (?s ! i)) = Some n \<and> 0 \<le> n)
           \<and> parse_int (sub_dir (?s ! j)) = None"
  then have mi: "?s ! i \<in> set cs" and mj: "?s ! j \<in> set cs"
    by (metis nth_mem sort_candidates_set)+
  from h collect_ranked(2)[OF assms mi] have ri: "0 \<le> sub_num (?s ! i)" by auto
  from h collect_ranked(2)[OF assms mj] have rj: "sub_num (?s ! j) = - 1" by auto
  show "i < j"
  proof (rule ccontr)
    assume "\<not> i < j"
    moreover from h have "i \<noteq> j" by auto
    ultimately have "j < i" by simp
    from sort_candidates_nth_ge[OF this] h have "key_ge (?s ! j) (?s ! i)" by simp
    with ri rj h show False by (auto simp: key_ge_def)
  qed
qed

lemma sorted_discovered_labels:
  "parse_int (iter_dir (sort_candidates discovered ! 0)) = Some 10"
  "parse_int (iter_dir (sort_candidates discovered ! 2)) = None"
  "iter_num (sort_candidates discovered ! 2) = - 1"
  "parse_int (iter_dir (sort_candidates discovered ! 4)) = Some (- 5)"
  by code_simp+

text \<open>
  The theorem at the example tree: iteration \<^verbatim>\<open>10\<close> stands before \<^verbatim>\<open>alpha\<close>.
\<close>

theorem non_numeric_rank_witness:
  "collect_candidates example_tree example_args [''s'', ''images''] = Inr discovered
   \<and> parse_int (iter_dir (sort_candidates discovered ! 0)) = Some 10
   \<and> parse_int (iter_dir (sort_candidates discovered ! 2)) = None
   \<and> iter_num (sort_candidates discovered ! 2) = - 1
   \<and> (0::nat) < 2"
  using non_numeric_rank[OF collect_example] collect_example sorted_discovered_labels
  by simp

text \<open>
  Claim C6 as stated fails for a negative number: in the sorted list of the example
  tree the candidate of the numeric iteration \<^verbatim>\<open>-5\<close>, of rank \<open>- 5\<close>, stands behind
  the candidate of the non-numeric iteration \<^verbatim>\<open>alpha\<close>, of rank \<open>- 1\<close>.
\<close>

theorem negative_label_counterexample:
  "collect_candidates example_tree example_args [''s'', ''images''] = Inr discovered
   \<and> parse_int (iter_dir (sort_candidates discovered ! 4)) = Some (- 5)
   \<and> parse_int (iter_dir (sort_candidates discovered ! 2)) = None
   \<and> \<not> (4::nat) < 2"
  using collect_example sorted_discovered_labels by simp

section \<open>Only \<^verbatim>\<open>*.jpg\<close> files are images\<close>






section \<open>One candidate for each leaf\<close>




















section \<open>The selection\<close>




lemma found_run: "discover run_env run_args run_tree = Inr found"
  by code_simp



section \<open>The dry run\<close>

text \<open>
  Claim C5 against the code: a dry run that finds no candidate leaves through the
  branch of lines 199 to 207, which stands before the test of the dry-run flag. On the
  deployed example site, with no source root given, the dry run prints no preview and
  writes an empty manifest over the one in place.
\<close>

theorem dry_run_overwrites_manifest:
  "map_of deployed_tree [''s'', ''manifest.json'']
     = Some (File 9 40 (Some (JObj [(''items'', JList [JNum 1])])))
   \<and> trace (main run_env (run_args \<lparr> dpg_root := None, dry_run := True \<rparr>) deployed_tree)
       = [Print OkNoCandidates,
          WriteText [''s'', ''manifest.json''] (manifest_of (created_at run_env) [])]
   \<and> map_option (\<lambda>fs. map_of fs [''s'', ''manifest.json''])
         (state_after (main run_env (run_args \<lparr> dpg_root := None, dry_run := True \<rparr>) deployed_tree))
       = Some (Some (File 1000 2 (Some (manifest_of (created_at run_env) []))))"
  by code_simp

section \<open>Counting files\<close>

declare mkdir_parents.simps [simp del]






















section \<open>The file budget\<close>

lemma copies_simps [simp]:
  "copies [] = []" "copies (Print m # evs) = copies evs"
  "copies (WriteText p j # evs) = copies evs" "copies (Copy2 s d # evs) = (s, d) # copies evs"
  "copies (evs @ evs') = copies evs @ copies evs'"
  by (simp_all add: copies_def List.map_filter_def)

lemma written_simps [simp]:
  "written [] = []" "written (Print m # evs) = written evs"
  "written (WriteText p j # evs) = j # written evs" "written (Copy2 s d # evs) = written evs"
  "written (evs @ evs') = written evs @ written evs'"
  by (simp_all add: written_def List.map_filter_def)

lemma preview_silent [simp]: "copies (preview xs) = []" "written (preview xs) = []"
  by (auto simp: copies_def written_def preview_def List.map_filter_def filter_empty_conv)






end
